theory Spec2Isabelle
  imports Main "HOL-Library.Word"
begin

section \<open>The version tag updater of hack/tags/tags.go\<close>

text \<open>
  The program reads a version tag, increments it and writes it back. The embedding
  follows the Go source function by function. Go strings are byte strings
  (\<open>string\<close>), Go's \<open>int\<close> is the 64-bit two's complement integer of the
  64-bit platforms the build runs on (\<open>64 word\<close>, read with \<open>sint\<close>), an
  \<open>error\<close> return is the left summand of a sum, and the two marker files live in
  an explicit file system that every operation takes and returns.
\<close>

subsection \<open>Constants and errors\<close>

definition DefaultTagVersion :: string where
  "DefaultTagVersion = ''dev.1''"

definition DevFullPathFilename :: string where
  "DevFullPathFilename = ''hack/DEV_BUILD_VERSION.yaml''"

definition NewVersionFullPathFilename :: string where
  "NewVersionFullPathFilename = ''hack/NEW_BUILD_VERSION''"

definition NumberOfSemVerSeparators :: nat where
  "NumberOfSemVerSeparators = 3"

definition NumberOfSeparatorsInDevTag :: nat where
  "NumberOfSeparatorsInDevTag = 2"

text \<open>
  The three sentinel errors of the program, and the errors that come back from the
  operating system (\<open>ErrIO\<close>) and from the YAML library (\<open>ErrYaml\<close>), which are
  values distinct from every sentinel.
\<close>

datatype error =
    ErrInvalidVersionFormat
  | ErrDataReaderFailed
  | ErrDataWriterFailed
  | ErrIO
  | ErrYaml

type_synonym go_int = "64 word"

subsection \<open>The library functions the program calls\<close>

text \<open>
  \<open>strings.Split(s, ".")\<close>: the substrings between the separators, one more than
  there are separators; the empty string gives one empty field.
\<close>

fun splitFrom :: "char \<Rightarrow> string \<Rightarrow> string \<Rightarrow> string list" where
  "splitFrom sep acc [] = [rev acc]"
| "splitFrom sep acc (c # cs) =
     (if c = sep then rev acc # splitFrom sep [] cs else splitFrom sep (c # acc) cs)"

definition Split :: "string \<Rightarrow> char \<Rightarrow> string list" where
  "Split s sep = splitFrom sep [] s"

text \<open>
  \<open>strconv.Atoi\<close>: an optional sign, then at least one decimal digit and nothing
  else (\<open>ErrSyntax\<close> otherwise); the digits are accumulated in an unsigned 64-bit
  value, and a value that does not fit the signed 64-bit \<open>int\<close> is \<open>ErrRange\<close>.
\<close>

datatype num_error = ErrSyntax | ErrRange

definition isDigit :: "char \<Rightarrow> bool" where
  "isDigit c = (48 \<le> (of_char c :: nat) \<and> (of_char c :: nat) \<le> 57)"

definition digitVal :: "char \<Rightarrow> nat" where
  "digitVal c = of_char c - 48"

fun parseDigits :: "nat \<Rightarrow> string \<Rightarrow> num_error + nat" where
  "parseDigits n [] = Inr n"
| "parseDigits n (c # cs) =
     (if \<not> isDigit c then Inl ErrSyntax
      else if n * 10 + digitVal c \<ge> 2 ^ 64 then Inl ErrRange
      else parseDigits (n * 10 + digitVal c) cs)"

definition ParseUint :: "string \<Rightarrow> num_error + nat" where
  "ParseUint s = (if s = [] then Inl ErrSyntax else parseDigits 0 s)"

definition ParseInt :: "string \<Rightarrow> num_error + int" where
  "ParseInt s =
     (case s of
        [] \<Rightarrow> Inl ErrSyntax
      | c # cs \<Rightarrow>
          (let neg = (c = CHR ''-'');
               s' = (if c = CHR ''+'' \<or> c = CHR ''-'' then cs else s)
           in case ParseUint s' of
                Inl e \<Rightarrow> Inl e
              | Inr un \<Rightarrow>
                  if \<not> neg \<and> un \<ge> 2 ^ 63 then Inl ErrRange
                  else if neg \<and> un > 2 ^ 63 then Inl ErrRange
                  else Inr (if neg then - int un else int un)))"

definition Atoi :: "string \<Rightarrow> num_error + go_int" where
  "Atoi s = (case ParseInt s of Inl e \<Rightarrow> Inl e | Inr i \<Rightarrow> Inr (word_of_int i))"

text \<open>
  The verb \<open>%d\<close> of \<open>fmt.Sprintf\<close>: the decimal digits of the value, most
  significant first, after a minus sign when it is negative.
\<close>

definition digitChar :: "nat \<Rightarrow> char" where
  "digitChar d = ''0123456789'' ! d"

fun showNat :: "nat \<Rightarrow> string" where
  "showNat n = (if n < 10 then [digitChar n] else showNat (n div 10) @ [digitChar (n mod 10)])"

declare showNat.simps [simp del]

definition showInt :: "int \<Rightarrow> string" where
  "showInt i = (if i < 0 then CHR ''-'' # showNat (nat (- i)) else showNat (nat i))"

definition fmt_d :: "go_int \<Rightarrow> string" where
  "fmt_d w = showInt (sint w)"

subsection \<open>Incrementing a tag\<close>

text \<open>\<open>incrementRelease\<close>, lines 63 to 82.\<close>

definition incrementRelease :: "string \<Rightarrow> error + string" where
  "incrementRelease tag =
     (let items = Split tag CHR ''.'' in
      if length items \<noteq> NumberOfSemVerSeparators then Inl ErrInvalidVersionFormat
      else case Atoi (items ! 1) of
             Inl e \<Rightarrow> Inl ErrInvalidVersionFormat
           | Inr ver \<Rightarrow>
               (let newMajor = items ! 0;
                    newMinor = ver + 1
                in Inr (newMajor @ ''.'' @ fmt_d newMinor @ ''.0'')))"

text \<open>\<open>incrementDev\<close>, lines 173 to 191.\<close>

definition incrementDev :: "string \<Rightarrow> error + string" where
  "incrementDev tag =
     (let items = Split tag CHR ''.'' in
      if length items \<noteq> NumberOfSeparatorsInDevTag then Inl ErrInvalidVersionFormat
      else case Atoi (items ! 1) of
             Inl e \<Rightarrow> Inl ErrInvalidVersionFormat
           | Inr ver \<Rightarrow>
               (let newVersion = ver + 1
                in Inr (''dev.'' @ fmt_d newVersion)))"

subsection \<open>Files, the operating system and the YAML library\<close>

text \<open>
  The file system maps a path to the bytes of the file there. What the operating system
  does on a call is not decided by the program: \<open>os_faults\<close> says, for each path,
  which calls fail. In one run every file is opened at most once for reading and once for
  writing, so one answer per path and call is enough.
\<close>

type_synonym fs = "string \<rightharpoonup> string"

record os_faults =
  open_rd_err :: "string \<Rightarrow> bool"
  open_wr_err :: "string \<Rightarrow> bool"
  read_err :: "string \<Rightarrow> bool"
  write_err :: "string \<Rightarrow> nat option"
  close_err :: "string \<Rightarrow> bool"

definition contents :: "fs \<Rightarrow> string \<Rightarrow> string" where
  "contents fs f = (case fs f of None \<Rightarrow> [] | Some c \<Rightarrow> c)"

text \<open>
  \<open>(*os.File).Write\<close> appends the bytes to the file; when \<open>write_err\<close> is
  \<open>Some k\<close> it stops with an error after \<open>k\<close> bytes.
\<close>

definition file_Write :: "os_faults \<Rightarrow> string \<Rightarrow> string \<Rightarrow> fs \<Rightarrow> bool \<times> fs" where
  "file_Write os f p fs =
     (case write_err os f of
        None \<Rightarrow> (True, fs(f \<mapsto> contents fs f @ p))
      | Some k \<Rightarrow> (False, fs(f \<mapsto> contents fs f @ take k p)))"

text \<open>
  \<open>bufio\<close>: \<open>NewWriter\<close> and \<open>NewReader\<close> allocate their value and return the
  pointer to it (\<open>Some\<close>; \<open>None\<close> is the nil pointer). A writer holds up to 4096
  bytes. The program calls \<open>Write\<close> once, on the writer it has just made: on an empty
  writer \<open>Write\<close> passes a longer slice straight to the file and keeps a shorter one
  in the buffer, which \<open>Flush\<close> writes out.
\<close>

record Writer =
  wr :: string
  buf :: string

record Reader =
  rd :: string

definition defaultBufSize :: nat where
  "defaultBufSize = 4096"

definition NewWriter :: "string \<Rightarrow> Writer option" where
  "NewWriter f = Some \<lparr>wr = f, buf = []\<rparr>"

definition NewReader :: "string \<Rightarrow> Reader option" where
  "NewReader f = Some \<lparr>rd = f\<rparr>"

definition Writer_Write :: "os_faults \<Rightarrow> Writer \<Rightarrow> string \<Rightarrow> fs \<Rightarrow> bool \<times> Writer \<times> fs" where
  "Writer_Write os b p fs =
     (if length p > defaultBufSize - length (buf b) \<and> buf b = []
      then (case file_Write os (wr b) p fs of (ok, fs') \<Rightarrow> (ok, b, fs'))
      else (True, b\<lparr>buf := buf b @ p\<rparr>, fs))"

definition Flush :: "os_faults \<Rightarrow> Writer \<Rightarrow> fs \<Rightarrow> bool \<times> Writer \<times> fs" where
  "Flush os b fs =
     (if buf b = [] then (True, b, fs)
      else (case file_Write os (wr b) (buf b) fs of (ok, fs') \<Rightarrow> (ok, b\<lparr>buf := []\<rparr>, fs')))"

text \<open>
  \<open>github.com/ghodss/yaml\<close> is not part of the repository: the functions take it as a
  parameter. \<open>Marshal\<close> gives the bytes of a \<open>Version\<close> or fails (\<open>None\<close>),
  \<open>Unmarshal\<close> reads bytes into a fresh \<open>Version\<close> or fails.
\<close>

record Version =
  Version :: string

record yaml =
  Marshal :: "Version \<Rightarrow> string option"
  Unmarshal :: "string \<Rightarrow> Version option"

subsection \<open>Release version\<close>

text \<open>\<open>saveRelease\<close>, lines 84 to 112. The result of \<open>Flush\<close> is dropped, as in the source.\<close>

definition saveRelease :: "os_faults \<Rightarrow> string \<Rightarrow> fs \<Rightarrow> error option \<times> fs" where
  "saveRelease os version fs =
     (if open_wr_err os NewVersionFullPathFilename then (Some ErrIO, fs)
      else
        let fs1 = fs(NewVersionFullPathFilename \<mapsto> [])
        in case NewWriter NewVersionFullPathFilename of
             None \<Rightarrow> (Some ErrDataWriterFailed, fs1)
           | Some datawriter \<Rightarrow>
               (case Writer_Write os datawriter version fs1 of
                  (False, datawriter', fs2) \<Rightarrow> (Some ErrIO, fs2)
                | (True, datawriter', fs2) \<Rightarrow>
                    (case Flush os datawriter' fs2 of
                       (flushed, datawriter'', fs3) \<Rightarrow>
                         if close_err os NewVersionFullPathFilename then (Some ErrIO, fs3)
                         else (None, fs3))))"

text \<open>\<open>newRelease\<close>, lines 47 to 61.\<close>

definition newRelease :: "os_faults \<Rightarrow> string \<Rightarrow> fs \<Rightarrow> error option \<times> fs" where
  "newRelease os current fs =
     (case incrementRelease current of
        Inl err \<Rightarrow> (Some err, fs)
      | Inr newVersion \<Rightarrow> saveRelease os newVersion fs)"

subsection \<open>Dev version\<close>

text \<open>\<open>saveDev\<close>, lines 193 to 233.\<close>

definition saveDev :: "yaml \<Rightarrow> os_faults \<Rightarrow> string \<Rightarrow> fs \<Rightarrow> error option \<times> fs" where
  "saveDev y os tag fs =
     (case Marshal y \<lparr>Version = tag\<rparr> of
        None \<Rightarrow> (Some ErrYaml, fs)
      | Some byRaw \<Rightarrow>
          if open_wr_err os DevFullPathFilename then (Some ErrIO, fs)
          else
            (let fs1 = fs(DevFullPathFilename \<mapsto> [])
             in (case NewWriter DevFullPathFilename of
                   None \<Rightarrow> (Some ErrDataWriterFailed, fs1)
                 | Some datawriter \<Rightarrow>
                     (case Writer_Write os datawriter byRaw fs1 of
                        (False, datawriter', fs2) \<Rightarrow> (Some ErrIO, fs2)
                      | (True, datawriter', fs2) \<Rightarrow>
                          (case Flush os datawriter' fs2 of
                             (flushed, datawriter'', fs3) \<Rightarrow>
                               if close_err os DevFullPathFilename then (Some ErrIO, fs3)
                               else (None, fs3))))))"

text \<open>\<open>resetDev\<close>, lines 117 to 119.\<close>

definition resetDev :: "yaml \<Rightarrow> os_faults \<Rightarrow> fs \<Rightarrow> error option \<times> fs" where
  "resetDev y os fs = saveDev y os DefaultTagVersion fs"

text \<open>
  \<open>getTag\<close>, lines 143 to 171. Opening for reading has no \<open>O_CREATE\<close>: it fails
  when the file is not there.
\<close>

definition getTag :: "yaml \<Rightarrow> os_faults \<Rightarrow> fs \<Rightarrow> error + string" where
  "getTag y os fs =
     (case fs DevFullPathFilename of
        None \<Rightarrow> Inl ErrIO
      | Some bytes \<Rightarrow>
          if open_rd_err os DevFullPathFilename then Inl ErrIO
          else (case NewReader DevFullPathFilename of
                  None \<Rightarrow> Inl ErrDataReaderFailed
                | Some dataReader \<Rightarrow>
                    if read_err os (rd dataReader) then Inl ErrIO
                    else (case Unmarshal y bytes of
                            None \<Rightarrow> Inl ErrYaml
                          | Some version \<Rightarrow> Inr (Version version))))"

text \<open>\<open>bumpDev\<close>, lines 121 to 141.\<close>

definition bumpDev :: "yaml \<Rightarrow> os_faults \<Rightarrow> fs \<Rightarrow> error option \<times> fs" where
  "bumpDev y os fs =
     (case getTag y os fs of
        Inl err \<Rightarrow> (Some err, fs)
      | Inr version \<Rightarrow>
          (case incrementDev version of
             Inl err \<Rightarrow> (Some err, fs)
           | Inr newVersion \<Rightarrow> saveDev y os newVersion fs))"

subsection \<open>The program\<close>

text \<open>
  \<open>main\<close>, lines 237 to 276, from the parsed flags on. It returns nothing; the model
  returns which of its paths ran, named after the line it prints last.
\<close>

datatype exit =
    Succeeded
  | MustSupplyTag
  | ResetDevFailed error
  | NewReleaseFailed error
  | BumpDevFailed error

definition main :: "yaml \<Rightarrow> os_faults \<Rightarrow> string \<Rightarrow> bool \<Rightarrow> fs \<Rightarrow> exit \<times> fs" where
  "main y os tag release fs =
     (if release then
        if tag = [] then (MustSupplyTag, fs)
        else (case resetDev y os fs of
                (Some err, fs1) \<Rightarrow> (ResetDevFailed err, fs1)
              | (None, fs1) \<Rightarrow>
                  (case newRelease os tag fs1 of
                     (Some err, fs2) \<Rightarrow> (NewReleaseFailed err, fs2)
                   | (None, fs2) \<Rightarrow> (Succeeded, fs2)))
      else (case bumpDev y os fs of
              (Some err, fs1) \<Rightarrow> (BumpDevFailed err, fs1)
            | (None, fs1) \<Rightarrow> (Succeeded, fs1)))"

subsection \<open>Vocabulary of the properties\<close>

text \<open>
  A decimal integer as a reader writes it: an optional sign and at least one digit;
  \<open>intVal\<close> is the number it denotes and \<open>fitsInt\<close> says that a number is a
  value of Go's 64-bit \<open>int\<close>.
\<close>

definition decval :: "string \<Rightarrow> nat" where
  "decval cs = foldl (\<lambda>n c. n * 10 + digitVal c) 0 cs"

definition isIntLit :: "string \<Rightarrow> bool" where
  "isIntLit s =
     (case s of
        [] \<Rightarrow> False
      | c # cs \<Rightarrow>
          if c = CHR ''+'' \<or> c = CHR ''-'' then cs \<noteq> [] \<and> list_all isDigit cs
          else list_all isDigit s)"

definition intVal :: "string \<Rightarrow> int" where
  "intVal s =
     (case s of
        [] \<Rightarrow> 0
      | c # cs \<Rightarrow>
          if c = CHR ''-'' then - int (decval cs)
          else if c = CHR ''+'' then int (decval cs)
          else int (decval s))"

definition fitsInt :: "int \<Rightarrow> bool" where
  "fitsInt i = (- (2 ^ 63) \<le> i \<and> i < 2 ^ 63)"

text \<open>
  The two shapes of a tag: the right number of fields between the dots, and an integer in
  the second field.
\<close>

definition devShape :: "string \<Rightarrow> bool" where
  "devShape v =
     (length (Split v CHR ''.'') = 2 \<and> isIntLit (Split v CHR ''.'' ! 1))"

definition relShape :: "string \<Rightarrow> bool" where
  "relShape tag =
     (length (Split tag CHR ''.'') = 3 \<and> isIntLit (Split tag CHR ''.'' ! 1))"

text \<open>
  Concrete runs need an operating system and a YAML library. \<open>noFaults\<close> is the
  operating system on which every call succeeds. \<open>plainYaml\<close> is the YAML of a
  \<open>Version\<close> whose string is a plain scalar, as \<open>dev.1\<close> is: the one line
  \<open>version: dev.1\<close> and a line feed. It stands for the library in concrete runs
  on such strings only; the general statements hold for every library.
\<close>

definition noFaults :: os_faults where
  "noFaults =
     \<lparr>open_rd_err = (\<lambda>f. False), open_wr_err = (\<lambda>f. False), read_err = (\<lambda>f. False),
      write_err = (\<lambda>f. None), close_err = (\<lambda>f. False)\<rparr>"

fun stripPrefix :: "string \<Rightarrow> string \<Rightarrow> string option" where
  "stripPrefix [] s = Some s"
| "stripPrefix (p # ps) [] = None"
| "stripPrefix (p # ps) (c # cs) = (if p = c then stripPrefix ps cs else None)"

definition plainMarshal :: "Version \<Rightarrow> string option" where
  "plainMarshal v = Some (''version: '' @ Version v @ [CHR 0x0A])"

definition plainUnmarshal :: "string \<Rightarrow> Version option" where
  "plainUnmarshal b =
     (case stripPrefix ''version: '' b of
        None \<Rightarrow> None
      | Some r \<Rightarrow>
          if r \<noteq> [] \<and> last r = CHR 0x0A then Some \<lparr>Version = butlast r\<rparr> else None)"

definition plainYaml :: yaml where
  "plainYaml = \<lparr>Marshal = plainMarshal, Unmarshal = plainUnmarshal\<rparr>"

text \<open>
  \<open>newFileLocked\<close> is the operating system that refuses to open the new-version file
  for writing, and \<open>devFileWith t\<close> the file system whose only file is the dev marker
  file with the YAML of the tag \<open>t\<close>.
\<close>

definition newFileLocked :: os_faults where
  "newFileLocked = noFaults\<lparr>open_wr_err := (\<lambda>f. f = NewVersionFullPathFilename)\<rparr>"

definition devFileWith :: "string \<Rightarrow> fs" where
  "devFileWith t = [DevFullPathFilename \<mapsto> ''version: '' @ t @ [CHR 0x0A]]"



section \<open>Properties\<close>

subsection \<open>Splitting, parsing and printing\<close>

lemma splitFrom_no_sep: "sep \<notin> set xs \<Longrightarrow> splitFrom sep acc xs = [rev acc @ xs]"
  by (induction xs arbitrary: acc) auto

lemma splitFrom_field:
  "sep \<notin> set xs \<Longrightarrow> splitFrom sep acc (xs @ sep # rest) = (rev acc @ xs) # splitFrom sep [] rest"
  by (induction xs arbitrary: acc) auto

lemma Split_last: "sep \<notin> set xs \<Longrightarrow> Split xs sep = [xs]"
  by (simp add: Split_def splitFrom_no_sep)

lemma Split_field: "sep \<notin> set xs \<Longrightarrow> Split (xs @ sep # rest) sep = xs # Split rest sep"
  by (simp add: Split_def splitFrom_field)

lemma digitChar_ok: "d < 10 \<Longrightarrow> isDigit (digitChar d) \<and> digitVal (digitChar d) = d"
proof -
  assume "d < 10"
  then have "d \<in> {0,1,2,3,4,5,6,7,8,9}" by auto
  then show ?thesis
    by (auto simp: isDigit_def digitVal_def digitChar_def)
qed

lemma showNat_digits: "list_all isDigit (showNat n)"
  by (induction n rule: showNat.induct) (subst showNat.simps, simp add: digitChar_ok)

lemma showNat_ne: "showNat n \<noteq> []"
  by (subst showNat.simps) simp

lemma decval_snoc: "decval (cs @ [c]) = decval cs * 10 + digitVal c"
  by (simp add: decval_def)

lemma decval_showNat: "decval (showNat n) = n"
proof (induction n rule: showNat.induct)
  case (1 n)
  show ?case
  proof (cases "n < 10")
    case True
    then show ?thesis
      by (subst showNat.simps) (simp add: decval_def digitChar_ok)
  next
    case False
    with 1 show ?thesis
      by (subst showNat.simps) (simp add: decval_snoc digitChar_ok)
  qed
qed

lemma isDigit_not_special:
  "isDigit c \<Longrightarrow> c \<noteq> CHR ''.'' \<and> c \<noteq> CHR ''+'' \<and> c \<noteq> CHR ''-''"
  by (auto simp: isDigit_def)

lemma digits_no_dot: "list_all isDigit cs \<Longrightarrow> CHR ''.'' \<notin> set cs"
  by (induction cs) (auto dest: isDigit_not_special)

lemma foldl_digits_mono: "n \<le> foldl (\<lambda>n c. n * 10 + digitVal c) n cs"
proof (induction cs arbitrary: n)
  case Nil
  show ?case by simp
next
  case (Cons c cs)
  have "n \<le> n * 10 + digitVal c" by simp
  also have "\<dots> \<le> foldl (\<lambda>n c. n * 10 + digitVal c) (n * 10 + digitVal c) cs"
    by (rule Cons.IH)
  finally show ?case by simp
qed

lemma parseDigits_digits:
  "list_all isDigit cs \<Longrightarrow> n < 2 ^ 64 \<Longrightarrow>
   parseDigits n cs =
     (if foldl (\<lambda>n c. n * 10 + digitVal c) n cs < 2 ^ 64
      then Inr (foldl (\<lambda>n c. n * 10 + digitVal c) n cs) else Inl ErrRange)"
proof (induction cs arbitrary: n)
  case Nil
  then show ?case by simp
next
  case (Cons c cs)
  then have d: "isDigit c" and ds: "list_all isDigit cs" by simp_all
  show ?case
  proof (cases "n * 10 + digitVal c \<ge> 2 ^ 64")
    case True
    with foldl_digits_mono [of "n * 10 + digitVal c" cs]
    have "\<not> foldl (\<lambda>n c. n * 10 + digitVal c) (n * 10 + digitVal c) cs < 2 ^ 64"
      by linarith
    with True d show ?thesis by simp
  next
    case False
    then have "n * 10 + digitVal c < 2 ^ 64" by simp
    from Cons.IH [OF ds this] d False show ?thesis by simp
  qed
qed

lemma parseDigits_non_digit:
  "\<not> list_all isDigit cs \<Longrightarrow> \<exists>e. parseDigits n cs = Inl e"
  by (induction cs arbitrary: n) auto

lemma ParseUint_digits:
  "cs \<noteq> [] \<Longrightarrow> list_all isDigit cs \<Longrightarrow>
   ParseUint cs = (if decval cs < 2 ^ 64 then Inr (decval cs) else Inl ErrRange)"
  by (simp add: ParseUint_def parseDigits_digits decval_def)

lemma ParseUint_bad:
  "cs = [] \<or> \<not> list_all isDigit cs \<Longrightarrow> \<exists>e. ParseUint cs = Inl e"
  using parseDigits_non_digit [of cs 0] by (auto simp: ParseUint_def)

lemma ParseInt_ok:
  assumes "isIntLit s" and "fitsInt (intVal s)"
  shows "ParseInt s = Inr (intVal s)"
proof (cases s)
  case Nil
  with assms show ?thesis by (simp add: isIntLit_def)
next
  case (Cons c cs)
  show ?thesis
  proof (cases "c = CHR ''+'' \<or> c = CHR ''-''")
    case True
    with assms Cons have "cs \<noteq> []" "list_all isDigit cs"
      by (auto simp: isIntLit_def)
    with assms True Cons show ?thesis
      by (auto simp: ParseInt_def ParseUint_digits intVal_def fitsInt_def Let_def)
  next
    case False
    with assms Cons have "s \<noteq> []" "list_all isDigit s"
      by (auto simp: isIntLit_def)
    with assms False Cons ParseUint_digits [of s] show ?thesis
      by (auto simp: ParseInt_def intVal_def fitsInt_def Let_def)
  qed
qed

lemma ParseInt_bad:
  assumes "\<not> (isIntLit s \<and> fitsInt (intVal s))"
  shows "\<exists>e. ParseInt s = Inl e"
proof (cases s)
  case Nil
  then show ?thesis by (simp add: ParseInt_def)
next
  case (Cons c cs)
  show ?thesis
  proof (cases "c = CHR ''+'' \<or> c = CHR ''-''")
    case True
    show ?thesis
    proof (cases "cs \<noteq> [] \<and> list_all isDigit cs")
      case lit: True
      with assms True Cons show ?thesis
        by (auto simp: ParseInt_def ParseUint_digits intVal_def fitsInt_def isIntLit_def Let_def)
    next
      case False
      with ParseUint_bad [of cs] obtain e where "ParseUint cs = Inl e" by auto
      with True Cons show ?thesis by (auto simp: ParseInt_def Let_def)
    qed
  next
    case False
    show ?thesis
    proof (cases "list_all isDigit s")
      case lit: True
      with assms False Cons ParseUint_digits [of s] show ?thesis
        by (auto simp: ParseInt_def intVal_def fitsInt_def isIntLit_def Let_def)
    next
      case nolit: False
      with ParseUint_bad [of s] obtain e where "ParseUint s = Inl e" by auto
      with False Cons show ?thesis by (auto simp: ParseInt_def Let_def)
    qed
  qed
qed

lemma Atoi_ok:
  "isIntLit s \<Longrightarrow> fitsInt (intVal s) \<Longrightarrow> Atoi s = Inr (word_of_int (intVal s))"
  by (simp add: Atoi_def ParseInt_ok)

lemma Atoi_bad:
  "\<not> (isIntLit s \<and> fitsInt (intVal s)) \<Longrightarrow> \<exists>e. Atoi s = Inl e"
  using ParseInt_bad [of s] by (auto simp: Atoi_def)

lemma sint_word_of_int:
  "- (2 ^ 63) \<le> j \<Longrightarrow> j < 2 ^ 63 \<Longrightarrow> sint (word_of_int j :: go_int) = j"
  by (simp add: signed_of_int signed_take_bit_int_eq_self)

lemma sint_succ:
  assumes "- (2 ^ 63) \<le> i" and "i < 2 ^ 63 - 1"
  shows "sint (word_of_int i + 1 :: go_int) = i + 1"
proof -
  have "word_of_int i + 1 = (word_of_int (i + 1) :: go_int)" by simp
  moreover have "sint (word_of_int (i + 1) :: go_int) = i + 1"
    using assms by (intro sint_word_of_int) simp_all
  ultimately show ?thesis by (simp only:)
qed


lemma digits_isIntLit:
  assumes "cs \<noteq> []" and "list_all isDigit cs"
  shows "isIntLit cs \<and> intVal cs = int (decval cs)"
proof (cases cs)
  case Nil
  with assms show ?thesis by simp
next
  case (Cons c cs')
  with assms have "isDigit c" by simp
  then have "c \<noteq> CHR ''+''" "c \<noteq> CHR ''-''"
    by (simp_all add: isDigit_not_special)
  with assms Cons show ?thesis
    by (simp add: isIntLit_def intVal_def)
qed

lemma showNat_isIntLit: "isIntLit (showNat n) \<and> intVal (showNat n) = int n"
  using digits_isIntLit [OF showNat_ne showNat_digits, of n] by (simp add: decval_showNat)

lemma isIntLit_no_dot:
  assumes "isIntLit s"
  shows "CHR ''.'' \<notin> set s"
proof (cases s)
  case Nil
  then show ?thesis by simp
next
  case (Cons c cs)
  show ?thesis
  proof (cases "c = CHR ''+'' \<or> c = CHR ''-''")
    case True
    with assms Cons have "list_all isDigit cs" by (auto simp: isIntLit_def)
    then have "CHR ''.'' \<notin> set cs" by (rule digits_no_dot)
    with True Cons show ?thesis by auto
  next
    case False
    with assms Cons have "list_all isDigit s" by (auto simp: isIntLit_def)
    then show ?thesis by (rule digits_no_dot)
  qed
qed

lemma showNat_no_dot: "CHR ''.'' \<notin> set (showNat n)"
  by (rule digits_no_dot) (rule showNat_digits)

lemma showInt_succ_nat: "showInt (int n + 1) = showNat (n + 1)"
proof -
  have "nat (int n + 1) = n + 1" by simp
  then show ?thesis by (simp add: showInt_def)
qed

lemma int_succ_bound: "n + 1 < 2 ^ 63 \<Longrightarrow> int n + 1 < 2 ^ 63"
proof -
  assume "n + 1 < 2 ^ 63"
  then have "int (n + 1) < int (2 ^ 63)" by (simp only: of_nat_less_iff)
  then show ?thesis by simp
qed

lemma Split_two:
  "CHR ''.'' \<notin> set x \<Longrightarrow> CHR ''.'' \<notin> set s \<Longrightarrow> Split (x @ ''.'' @ s) CHR ''.'' = [x, s]"
  using Split_field [of "CHR ''.''" x s] by (simp add: Split_last)

lemma Split_three:
  "CHR ''.'' \<notin> set a \<Longrightarrow> CHR ''.'' \<notin> set s \<Longrightarrow> CHR ''.'' \<notin> set c \<Longrightarrow>
   Split (a @ ''.'' @ s @ ''.'' @ c) CHR ''.'' = [a, s, c]"
  using Split_field [of "CHR ''.''" a "s @ ''.'' @ c"] Split_field [of "CHR ''.''" s c]
  by (simp add: Split_last)

lemma incrementDev_fields:
  assumes "CHR ''.'' \<notin> set x" and "isIntLit s"
    and "- (2 ^ 63) \<le> intVal s" and "intVal s + 1 < 2 ^ 63"
  shows "incrementDev (x @ ''.'' @ s) = Inr (''dev.'' @ showInt (intVal s + 1))"
proof -
  have sp: "Split (x @ ''.'' @ s) CHR ''.'' = [x, s]"
    using assms(1) isIntLit_no_dot [OF assms(2)] by (rule Split_two)
  have "fitsInt (intVal s)" using assms by (simp add: fitsInt_def)
  then have at: "Atoi s = Inr (word_of_int (intVal s))"
    using assms by (simp add: Atoi_ok)
  have "sint (word_of_int (intVal s) + 1 :: go_int) = intVal s + 1"
    using assms by (intro sint_succ) simp_all
  with sp at show ?thesis
    by (simp add: incrementDev_def NumberOfSeparatorsInDevTag_def fmt_d_def)
qed

lemma incrementRelease_fields:
  assumes "CHR ''.'' \<notin> set a" and "CHR ''.'' \<notin> set c" and "isIntLit s"
    and "- (2 ^ 63) \<le> intVal s" and "intVal s + 1 < 2 ^ 63"
  shows "incrementRelease (a @ ''.'' @ s @ ''.'' @ c) = Inr (a @ ''.'' @ showInt (intVal s + 1) @ ''.0'')"
proof -
  have sp: "Split (a @ ''.'' @ s @ ''.'' @ c) CHR ''.'' = [a, s, c]"
    using assms(1) isIntLit_no_dot [OF assms(3)] assms(2) by (rule Split_three)
  have "fitsInt (intVal s)" using assms by (simp add: fitsInt_def)
  then have at: "Atoi s = Inr (word_of_int (intVal s))"
    using assms by (simp add: Atoi_ok)
  have "sint (word_of_int (intVal s) + 1 :: go_int) = intVal s + 1"
    using assms by (intro sint_succ) simp_all
  with sp at show ?thesis
    by (simp add: incrementRelease_def NumberOfSemVerSeparators_def fmt_d_def)
qed

lemma incrementDev_Inl: "incrementDev v = Inl e \<Longrightarrow> e = ErrInvalidVersionFormat"
  by (auto simp: incrementDev_def Let_def split: if_splits sum.splits)

lemma incrementRelease_Inl: "incrementRelease v = Inl e \<Longrightarrow> e = ErrInvalidVersionFormat"
  by (auto simp: incrementRelease_def Let_def split: if_splits sum.splits)

lemma incrementDev_error_iff:
  "(incrementDev v = Inl ErrInvalidVersionFormat) =
     (\<not> (devShape v \<and> fitsInt (intVal (Split v CHR ''.'' ! 1))))"
proof (cases "devShape v \<and> fitsInt (intVal (Split v CHR ''.'' ! 1))")
  case True
  then have "Atoi (Split v CHR ''.'' ! 1) = Inr (word_of_int (intVal (Split v CHR ''.'' ! 1)))"
    by (simp add: devShape_def Atoi_ok)
  with True show ?thesis
    by (simp add: incrementDev_def devShape_def NumberOfSeparatorsInDevTag_def Let_def)
next
  case False
  show ?thesis
  proof (cases "length (Split v CHR ''.'') = 2")
    case len: True
    with False have "\<not> (isIntLit (Split v CHR ''.'' ! 1) \<and> fitsInt (intVal (Split v CHR ''.'' ! 1)))"
      by (simp add: devShape_def)
    then obtain e where "Atoi (Split v CHR ''.'' ! 1) = Inl e"
      using Atoi_bad by blast
    with False show ?thesis by (simp add: incrementDev_def Let_def)
  next
    case nolen: False
    with False show ?thesis
      by (simp add: incrementDev_def NumberOfSeparatorsInDevTag_def Let_def)
  qed
qed

lemma incrementRelease_error_iff:
  "(incrementRelease v = Inl ErrInvalidVersionFormat) =
     (\<not> (relShape v \<and> fitsInt (intVal (Split v CHR ''.'' ! 1))))"
proof (cases "relShape v \<and> fitsInt (intVal (Split v CHR ''.'' ! 1))")
  case True
  then have "Atoi (Split v CHR ''.'' ! 1) = Inr (word_of_int (intVal (Split v CHR ''.'' ! 1)))"
    by (simp add: relShape_def Atoi_ok)
  with True show ?thesis
    by (simp add: incrementRelease_def relShape_def NumberOfSemVerSeparators_def Let_def)
next
  case False
  show ?thesis
  proof (cases "length (Split v CHR ''.'') = 3")
    case len: True
    with False have "\<not> (isIntLit (Split v CHR ''.'' ! 1) \<and> fitsInt (intVal (Split v CHR ''.'' ! 1)))"
      by (simp add: relShape_def)
    then obtain e where "Atoi (Split v CHR ''.'' ! 1) = Inl e"
      using Atoi_bad by blast
    with False show ?thesis by (simp add: incrementRelease_def Let_def)
  next
    case nolen: False
    with False show ?thesis
      by (simp add: incrementRelease_def NumberOfSemVerSeparators_def Let_def)
  qed
qed

lemma incrementDev_total:
  "incrementDev v = Inl ErrInvalidVersionFormat \<or> (\<exists>nv. incrementDev v = Inr nv)"
  by (cases "incrementDev v") (auto dest: incrementDev_Inl)

subsection \<open>Writing and reading the marker files\<close>

lemma paths_distinct: "DevFullPathFilename \<noteq> NewVersionFullPathFilename"
  by (simp add: DevFullPathFilename_def NewVersionFullPathFilename_def)

lemma write_all:
  "write_err os f = None \<Longrightarrow>
   (case Writer_Write os \<lparr>wr = f, buf = []\<rparr> p (fs(f \<mapsto> [])) of
      (ok, b, fs2) \<Rightarrow> ok \<and> snd (snd (Flush os b fs2)) = fs(f \<mapsto> p))"
  by (simp add: Writer_Write_def Flush_def file_Write_def contents_def)

lemma saveDev_written:
  assumes "Marshal y \<lparr>Version = t\<rparr> = Some b"
    and "\<not> open_wr_err os DevFullPathFilename"
    and "write_err os DevFullPathFilename = None"
  shows "saveDev y os t fs =
           (if close_err os DevFullPathFilename then Some ErrIO else None,
            fs(DevFullPathFilename \<mapsto> b))"
  using assms write_all [where os = os and f = DevFullPathFilename and p = b and fs = fs]
  by (auto simp: saveDev_def NewWriter_def split: prod.splits)

lemma saveRelease_written:
  assumes "\<not> open_wr_err os NewVersionFullPathFilename"
    and "write_err os NewVersionFullPathFilename = None"
  shows "saveRelease os v fs =
           (if close_err os NewVersionFullPathFilename then Some ErrIO else None,
            fs(NewVersionFullPathFilename \<mapsto> v))"
  using assms write_all [where os = os and f = NewVersionFullPathFilename and p = v and fs = fs]
  by (auto simp: saveRelease_def NewWriter_def split: prod.splits)

lemma saveRelease_open_fails:
  "open_wr_err os NewVersionFullPathFilename \<Longrightarrow> saveRelease os v fs = (Some ErrIO, fs)"
  by (simp add: saveRelease_def)

lemma saveDev_errors:
  "fst (saveDev y os t fs) = None \<or> fst (saveDev y os t fs) = Some ErrYaml
   \<or> fst (saveDev y os t fs) = Some ErrIO"
  by (simp add: saveDev_def NewWriter_def split: option.splits prod.splits bool.splits)

lemma saveRelease_errors:
  "fst (saveRelease os v fs) = None \<or> fst (saveRelease os v fs) = Some ErrIO"
  by (simp add: saveRelease_def NewWriter_def split: option.splits prod.splits bool.splits)


lemma saveRelease_other:
  "g \<noteq> NewVersionFullPathFilename \<Longrightarrow> snd (saveRelease os v fs) g = fs g"
  by (auto simp: saveRelease_def NewWriter_def Writer_Write_def Flush_def file_Write_def Let_def
      split: option.splits prod.splits bool.splits if_splits)

lemma getTag_errors:
  "getTag y os fs \<noteq> Inl ErrDataReaderFailed \<and> getTag y os fs \<noteq> Inl ErrDataWriterFailed
   \<and> getTag y os fs \<noteq> Inl ErrInvalidVersionFormat"
  by (simp add: getTag_def NewReader_def split: option.splits)


lemma newFileLocked_simps:
  "\<not> open_wr_err newFileLocked DevFullPathFilename"
  "open_wr_err newFileLocked NewVersionFullPathFilename"
  "write_err newFileLocked f = None" "\<not> close_err newFileLocked f"
  by (simp_all add: newFileLocked_def noFaults_def paths_distinct)

lemma newRelease_other:
  "g \<noteq> NewVersionFullPathFilename \<Longrightarrow> snd (newRelease os tag fs) g = fs g"
  by (cases "incrementRelease tag") (simp_all add: newRelease_def saveRelease_other)

lemma newRelease_malformed:
  "\<not> relShape tag \<Longrightarrow> newRelease os tag fs = (Some ErrInvalidVersionFormat, fs)"
  using incrementRelease_error_iff [of tag] by (simp add: newRelease_def)


lemma bumpDev_parse_error:
  assumes "getTag y os fs = Inr v"
  shows "(fst (bumpDev y os fs) = Some ErrInvalidVersionFormat) =
           (incrementDev v = Inl ErrInvalidVersionFormat)"
proof (cases "incrementDev v")
  case (Inl e)
  with assms incrementDev_Inl [OF Inl] show ?thesis by (simp add: bumpDev_def)
next
  case (Inr nv)
  with assms saveDev_errors [of y os nv fs] show ?thesis by (auto simp: bumpDev_def)
qed

subsection \<open>Concrete runs\<close>

lemmas run_increment =
  incrementDev_def incrementRelease_def Split_def NumberOfSeparatorsInDevTag_def
  NumberOfSemVerSeparators_def Atoi_def ParseInt_def ParseUint_def isDigit_def digitVal_def
  fmt_d_def showInt_def showNat.simps digitChar_def

lemmas run_parse =
  Split_def isIntLit_def intVal_def decval_def fitsInt_def isDigit_def digitVal_def
  devShape_def relShape_def

lemma plainYaml_Marshal:
  "Marshal plainYaml \<lparr>Version = t\<rparr> = Some (''version: '' @ t @ [CHR 0x0A])"
  by (simp add: plainYaml_def plainMarshal_def)


lemma noFaults_simps:
  "\<not> open_rd_err noFaults f" "\<not> open_wr_err noFaults f" "\<not> read_err noFaults f"
  "write_err noFaults f = None" "\<not> close_err noFaults f"
  by (simp_all add: noFaults_def)

lemma getTag_devFileWith: "getTag plainYaml noFaults (devFileWith t) = Inr t"
  by (simp add: getTag_def NewReader_def devFileWith_def noFaults_simps plainYaml_def
      plainUnmarshal_def)

lemma getTag_Inl: "getTag y os fs = Inl e \<Longrightarrow> e = ErrIO \<or> e = ErrYaml"
  by (auto simp: getTag_def NewReader_def split: option.splits if_splits)

lemma newRelease_errors:
  "fst (newRelease os tag fs) = None \<or> fst (newRelease os tag fs) = Some ErrIO
   \<or> fst (newRelease os tag fs) = Some ErrInvalidVersionFormat"
proof (cases "incrementRelease tag")
  case (Inl e)
  with incrementRelease_Inl [OF Inl] show ?thesis by (simp add: newRelease_def)
next
  case (Inr nv)
  with saveRelease_errors [of os nv fs] show ?thesis by (auto simp: newRelease_def)
qed

lemma bumpDev_errors:
  "fst (bumpDev y os fs) = None \<or> fst (bumpDev y os fs) = Some ErrIO
   \<or> fst (bumpDev y os fs) = Some ErrYaml
   \<or> fst (bumpDev y os fs) = Some ErrInvalidVersionFormat"
proof (cases "getTag y os fs")
  case (Inl e)
  with getTag_Inl [OF Inl] show ?thesis by (auto simp: bumpDev_def)
next
  case (Inr v)
  show ?thesis
  proof (cases "incrementDev v")
    case (Inl e)
    with Inr incrementDev_Inl [OF Inl] show ?thesis by (simp add: bumpDev_def)
  next
    case nv: (Inr nv)
    with Inr saveDev_errors [of y os nv fs] show ?thesis by (auto simp: bumpDev_def)
  qed
qed

lemma main_exits:
  "fst (main y os tag release fs) \<in>
     {Succeeded, MustSupplyTag, ResetDevFailed ErrIO, ResetDevFailed ErrYaml,
      NewReleaseFailed ErrIO, NewReleaseFailed ErrInvalidVersionFormat,
      BumpDevFailed ErrIO, BumpDevFailed ErrYaml, BumpDevFailed ErrInvalidVersionFormat}"
proof (cases release)
  case True
  show ?thesis
  proof (cases "resetDev y os fs")
    case (Pair r fs1)
    with saveDev_errors [of y os DefaultTagVersion fs]
    have r: "r = None \<or> r = Some ErrYaml \<or> r = Some ErrIO"
      by (simp add: resetDev_def)
    show ?thesis
    proof (cases "newRelease os tag fs1")
      case n: (Pair q fs2)
      with newRelease_errors [of os tag fs1]
      have "q = None \<or> q = Some ErrIO \<or> q = Some ErrInvalidVersionFormat" by simp
      with True Pair n r show ?thesis by (auto simp: main_def)
    qed
  qed
next
  case False
  show ?thesis
  proof (cases "bumpDev y os fs")
    case (Pair r fs1)
    with bumpDev_errors [of y os fs]
    have "r = None \<or> r = Some ErrIO \<or> r = Some ErrYaml \<or> r = Some ErrInvalidVersionFormat"
      by simp
    with False Pair show ?thesis by (auto simp: main_def)
  qed
qed

section \<open>The claims\<close>

subsection \<open>Incrementing\<close>

text \<open>
  Claim C3, as amended. For every dev tag \<open>dev.N\<close>, with \<open>N\<close> a non-negative integer in
  decimal form and \<open>N + 1\<close> below \<open>2 ^ 63\<close>, so that it is a value of the 64-bit
  \<open>int\<close>, \<open>incrementDev\<close> succeeds and returns exactly \<open>dev.(N+1)\<close>.
\<close>

theorem incrementDev_valid:
  "n + 1 < 2 ^ 63 \<Longrightarrow> incrementDev (''dev.'' @ showNat n) = Inr (''dev.'' @ showNat (n + 1))"
proof -
  assume "n + 1 < 2 ^ 63"
  then have "int n + 1 < 2 ^ 63" by (rule int_succ_bound)
  with incrementDev_fields [of "''dev''" "showNat n"] showNat_isIntLit [of n]
  show ?thesis by (simp add: showInt_succ_nat)
qed

text \<open>The tag \<open>dev.5\<close> becomes \<open>dev.6\<close>.\<close>

theorem incrementDev_valid_witness:
  "incrementDev ''dev.5'' = Inr ''dev.6''"
  using incrementDev_valid [of 5] by (simp add: showNat.simps digitChar_def)

text \<open>
  Without the bound the statement fails: \<open>9223372036854775808\<close>, which is \<open>2 ^ 63\<close>, is a
  non-negative integer in decimal form, and \<open>strconv.Atoi\<close> refuses it as out of range,
  so the tag is answered with \<open>ErrInvalidVersionFormat\<close>.
\<close>

theorem incrementDev_valid_counterexample:
  "incrementDev ''dev.9223372036854775808'' = Inl ErrInvalidVersionFormat"
  by (simp add: run_increment)

text \<open>
  Claim C4, as amended. For every release tag \<open>MAJOR.MINOR.PATCH\<close> of three non-negative
  integers in decimal form, with \<open>MINOR + 1\<close> below \<open>2 ^ 63\<close>, \<open>incrementRelease\<close>
  succeeds and returns exactly \<open>MAJOR.(MINOR+1).0\<close>: the major field is unchanged, the
  minor field is one more, and the patch field is 0.
\<close>

theorem incrementRelease_valid:
  "n + 1 < 2 ^ 63 \<Longrightarrow>
   incrementRelease (showNat a @ ''.'' @ showNat n @ ''.'' @ showNat c) =
     Inr (showNat a @ ''.'' @ showNat (n + 1) @ ''.0'')"
proof -
  assume "n + 1 < 2 ^ 63"
  then have "int n + 1 < 2 ^ 63" by (rule int_succ_bound)
  with incrementRelease_fields [of "showNat a" "showNat c" "showNat n"] showNat_isIntLit [of n]
  show ?thesis by (simp add: showInt_succ_nat showNat_no_dot)
qed

text \<open>The tag \<open>1.2.3\<close> becomes \<open>1.3.0\<close>.\<close>

theorem incrementRelease_valid_witness:
  "incrementRelease ''1.2.3'' = Inr ''1.3.0''"
  using incrementRelease_valid [of 2 1 3] by (simp add: showNat.simps digitChar_def)

text \<open>
  Without the bound the statement fails: the tag \<open>1.9223372036854775808.3\<close> has three integer
  fields, and its minor field is out of the range of \<open>int\<close>.
\<close>

theorem incrementRelease_valid_counterexample:
  "incrementRelease ''1.9223372036854775808.3'' = Inl ErrInvalidVersionFormat"
  by (simp add: run_increment)

text \<open>
  Claim C9, as amended. \<open>incrementDev\<close> never inspects the first field: for every input
  \<open>X.N\<close> where \<open>X\<close> is any string without a dot and \<open>N\<close> is a decimal integer,
  signed or not, with \<open>N\<close> at least \<open>- 2 ^ 63\<close> and \<open>N + 1\<close> below \<open>2 ^ 63\<close>, it
  succeeds and returns \<open>dev.(N+1)\<close>, whatever \<open>X\<close> is.
\<close>

theorem incrementDev_ignores_prefix:
  "CHR ''.'' \<notin> set x \<Longrightarrow> isIntLit s \<Longrightarrow> - (2 ^ 63) \<le> intVal s \<Longrightarrow> intVal s + 1 < 2 ^ 63 \<Longrightarrow>
   incrementDev (x @ ''.'' @ s) = Inr (''dev.'' @ showInt (intVal s + 1))"
proof -
  assume x: "CHR ''.'' \<notin> set x" and s: "isIntLit s"
    and lo: "- (2 ^ 63) \<le> intVal s" and hi: "intVal s + 1 < 2 ^ 63"
  from s have "CHR ''.'' \<notin> set s" by (rule isIntLit_no_dot)
  with x have items: "Split (x @ ''.'' @ s) CHR ''.'' = [x, s]" by (rule Split_two)
  from lo hi have "fitsInt (intVal s)" by (simp add: fitsInt_def)
  with s have ver: "Atoi s = Inr (word_of_int (intVal s))" by (rule Atoi_ok)
  from lo hi have "sint (word_of_int (intVal s) + 1 :: go_int) = intVal s + 1"
    by (intro sint_succ) simp_all
  with items ver show ?thesis
    by (simp add: incrementDev_def NumberOfSeparatorsInDevTag_def fmt_d_def)
qed

text \<open>The input \<open>rc.-7\<close> becomes \<open>dev.-6\<close>.\<close>

theorem incrementDev_ignores_prefix_witness:
  "incrementDev ''rc.-7'' = Inr ''dev.-6''"
  using incrementDev_ignores_prefix [of "''rc''" "''-7''"]
  by (simp add: isIntLit_def intVal_def decval_def isDigit_def digitVal_def showInt_def
      showNat.simps digitChar_def)

text \<open>
  Without the bound the statement fails: in \<open>rc.18446744073709551616\<close> the first field has no
  dot and the second is an integer, \<open>2 ^ 64\<close>, which is out of the range of \<open>int\<close>.
\<close>

theorem incrementDev_ignores_prefix_counterexample:
  "incrementDev ''rc.18446744073709551616'' = Inl ErrInvalidVersionFormat"
  by (simp add: run_increment)

text \<open>
  Claim C10, as amended. \<open>incrementRelease\<close> never parses the major and patch fields: for
  every input \<open>A.N.C\<close> where \<open>A\<close> and \<open>C\<close> are any strings without a dot and \<open>N\<close> is a
  decimal integer, signed or not, with \<open>N\<close> at least \<open>- 2 ^ 63\<close> and \<open>N + 1\<close> below
  \<open>2 ^ 63\<close>, it succeeds and returns \<open>A.(N+1).0\<close>: \<open>A\<close> is copied, \<open>C\<close> is dropped,
  and neither causes \<open>ErrInvalidVersionFormat\<close>.
\<close>

theorem incrementRelease_ignores_major_patch:
  "CHR ''.'' \<notin> set a \<Longrightarrow> CHR ''.'' \<notin> set c \<Longrightarrow> isIntLit s \<Longrightarrow>
   - (2 ^ 63) \<le> intVal s \<Longrightarrow> intVal s + 1 < 2 ^ 63 \<Longrightarrow>
   incrementRelease (a @ ''.'' @ s @ ''.'' @ c) = Inr (a @ ''.'' @ showInt (intVal s + 1) @ ''.0'')"
proof -
  assume a: "CHR ''.'' \<notin> set a" and c: "CHR ''.'' \<notin> set c" and s: "isIntLit s"
    and lo: "- (2 ^ 63) \<le> intVal s" and hi: "intVal s + 1 < 2 ^ 63"
  from s have "CHR ''.'' \<notin> set s" by (rule isIntLit_no_dot)
  with a have items: "Split (a @ ''.'' @ s @ ''.'' @ c) CHR ''.'' = [a, s, c]"
    using c by (rule Split_three)
  from lo hi have "fitsInt (intVal s)" by (simp add: fitsInt_def)
  with s have ver: "Atoi s = Inr (word_of_int (intVal s))" by (rule Atoi_ok)
  from lo hi have "sint (word_of_int (intVal s) + 1 :: go_int) = intVal s + 1"
    by (intro sint_succ) simp_all
  with items ver show ?thesis
    by (simp add: incrementRelease_def NumberOfSemVerSeparators_def fmt_d_def)
qed

text \<open>The input \<open>v1.+41.beta\<close> becomes \<open>v1.42.0\<close>.\<close>

theorem incrementRelease_ignores_major_patch_witness:
  "incrementRelease ''v1.+41.beta'' = Inr ''v1.42.0''"
  using incrementRelease_ignores_major_patch [of "''v1''" "''beta''" "''+41''"]
  by (simp add: isIntLit_def intVal_def decval_def isDigit_def digitVal_def showInt_def
      showNat.simps digitChar_def)

text \<open>
  Without the bound the statement fails: in \<open>v1.99999999999999999999.x\<close> the outer fields have
  no dot and the middle one is an integer out of the range of \<open>int\<close>.
\<close>

theorem incrementRelease_ignores_major_patch_counterexample:
  "incrementRelease ''v1.99999999999999999999.x'' = Inl ErrInvalidVersionFormat"
  by (simp add: run_increment)

subsection \<open>The nil checks\<close>

text \<open>
  Claim C8. The branches that return \<open>ErrDataWriterFailed\<close> and
  \<open>ErrDataReaderFailed\<close> are unreachable: \<open>bufio.NewWriter\<close> and
  \<open>bufio.NewReader\<close> never return nil, so in every execution \<open>saveRelease\<close>,
  \<open>saveDev\<close>, \<open>getTag\<close> and the program as a whole never end with either error.
\<close>

theorem nil_checks_unreachable:
  "NewWriter f \<noteq> None \<and> NewReader f \<noteq> None
   \<and> fst (saveRelease os v fs) \<notin> {Some ErrDataWriterFailed, Some ErrDataReaderFailed}
   \<and> fst (saveDev y os t fs) \<notin> {Some ErrDataWriterFailed, Some ErrDataReaderFailed}
   \<and> getTag y os fs \<notin> {Inl ErrDataWriterFailed, Inl ErrDataReaderFailed}
   \<and> fst (main y os tag release fs) \<notin>
       {ResetDevFailed ErrDataWriterFailed, ResetDevFailed ErrDataReaderFailed,
        NewReleaseFailed ErrDataWriterFailed, NewReleaseFailed ErrDataReaderFailed,
        BumpDevFailed ErrDataWriterFailed, BumpDevFailed ErrDataReaderFailed}"
proof -
  have a: "NewWriter f \<noteq> None \<and> NewReader f \<noteq> None"
    by (simp add: NewWriter_def NewReader_def)
  have b: "fst (saveRelease os v fs) \<notin> {Some ErrDataWriterFailed, Some ErrDataReaderFailed}"
    using saveRelease_errors [of os v fs] by auto
  have c: "fst (saveDev y os t fs) \<notin> {Some ErrDataWriterFailed, Some ErrDataReaderFailed}"
    using saveDev_errors [of y os t fs] by auto
  have d: "getTag y os fs \<notin> {Inl ErrDataWriterFailed, Inl ErrDataReaderFailed}"
    using getTag_errors [of y os fs] by simp
  have e: "fst (main y os tag release fs) \<notin>
       {ResetDevFailed ErrDataWriterFailed, ResetDevFailed ErrDataReaderFailed,
        NewReleaseFailed ErrDataWriterFailed, NewReleaseFailed ErrDataReaderFailed,
        BumpDevFailed ErrDataWriterFailed, BumpDevFailed ErrDataReaderFailed}"
    using main_exits [of y os tag release fs] by auto
  from a b c d e show ?thesis by simp
qed

text \<open>A run on the empty file system, where the dev marker file cannot be read.\<close>

theorem nil_checks_unreachable_witness:
  "fst (saveDev plainYaml noFaults ''dev.1'' Map.empty) \<noteq> Some ErrDataWriterFailed
   \<and> getTag plainYaml noFaults Map.empty \<noteq> Inl ErrDataReaderFailed
   \<and> fst (main plainYaml noFaults [] False Map.empty) \<noteq> BumpDevFailed ErrDataReaderFailed"
  using nil_checks_unreachable [of DevFullPathFilename noFaults "[]" Map.empty plainYaml
      "''dev.1''" "[]" False]
  by simp

subsection \<open>Cutting a release\<close>

text \<open>
  Claim C5. With \<open>-release -tag 1.2.3\<close>, when every file operation succeeds and the
  YAML library marshals \<open>dev.1\<close>, the program ends with \<open>Succeeded\<close>, the dev marker
  file holds the marshalled \<open>dev.1\<close> and the new-version marker file holds the raw
  string \<open>1.3.0\<close>.
\<close>

theorem release_cut_succeeds:
  assumes "Marshal y \<lparr>Version = DefaultTagVersion\<rparr> = Some b"
    and "\<not> open_wr_err os DevFullPathFilename" and "write_err os DevFullPathFilename = None"
    and "\<not> close_err os DevFullPathFilename"
    and "\<not> open_wr_err os NewVersionFullPathFilename"
    and "write_err os NewVersionFullPathFilename = None"
    and "\<not> close_err os NewVersionFullPathFilename"
  shows "main y os ''1.2.3'' True fs =
           (Succeeded, fs(DevFullPathFilename \<mapsto> b, NewVersionFullPathFilename \<mapsto> ''1.3.0''))"
proof -
  have "incrementRelease ''1.2.3'' = Inr ''1.3.0''"
    by (simp add: run_increment)
  with assms show ?thesis
    by (simp add: main_def resetDev_def newRelease_def saveDev_written saveRelease_written)
qed

text \<open>On a file system without marker files the two files hold these bytes afterwards.\<close>

theorem release_cut_succeeds_witness:
  "main plainYaml noFaults ''1.2.3'' True Map.empty =
     (Succeeded, [DevFullPathFilename \<mapsto> ''version: dev.1'' @ [CHR 0x0A],
                  NewVersionFullPathFilename \<mapsto> ''1.3.0''])"
  using release_cut_succeeds [of plainYaml "''version: dev.1'' @ [CHR 0x0A]" noFaults Map.empty]
  by (simp add: noFaults_simps plainYaml_Marshal DefaultTagVersion_def)

text \<open>
  Claim C2. In release mode with a non-empty tag the dev marker file is reset first: when
  the YAML library marshals \<open>dev.1\<close> and the file can be opened and written, the
  release step runs on the file system that already holds the reset dev marker file (and
  does not run at all when closing that file fails), and the dev marker file holds the
  marshalled \<open>dev.1\<close> at the end whatever the tag is and whatever the release step
  does, a parse error and an I/O error on the new-version file included.
\<close>

theorem release_resets_dev_first:
  assumes "tag \<noteq> []" and "Marshal y \<lparr>Version = DefaultTagVersion\<rparr> = Some b"
    and "\<not> open_wr_err os DevFullPathFilename" and "write_err os DevFullPathFilename = None"
  shows "main y os tag True fs =
           (if close_err os DevFullPathFilename
            then (ResetDevFailed ErrIO, fs(DevFullPathFilename \<mapsto> b))
            else case newRelease os tag (fs(DevFullPathFilename \<mapsto> b)) of
                   (Some err, fs2) \<Rightarrow> (NewReleaseFailed err, fs2)
                 | (None, fs2) \<Rightarrow> (Succeeded, fs2))
         \<and> snd (main y os tag True fs) DevFullPathFilename = Some b"
proof -
  let ?fs1 = "fs(DevFullPathFilename \<mapsto> b)"
  have r: "resetDev y os fs =
             (if close_err os DevFullPathFilename then Some ErrIO else None, ?fs1)"
    using assms by (simp add: resetDev_def saveDev_written)
  have m: "main y os tag True fs =
           (if close_err os DevFullPathFilename
            then (ResetDevFailed ErrIO, ?fs1)
            else case newRelease os tag ?fs1 of
                   (Some err, fs2) \<Rightarrow> (NewReleaseFailed err, fs2)
                 | (None, fs2) \<Rightarrow> (Succeeded, fs2))"
    using assms(1) r by (simp add: main_def)
  have "snd (newRelease os tag ?fs1) DevFullPathFilename = ?fs1 DevFullPathFilename"
    by (rule newRelease_other) (rule paths_distinct)
  then have d: "snd (main y os tag True fs) DevFullPathFilename = Some b"
    by (cases "newRelease os tag ?fs1") (simp add: m split: option.splits)
  from m d show ?thesis by (rule conjI)
qed

text \<open>
  Two runs on a dev marker file that holds \<open>dev.7\<close>: the tag \<open>1.2\<close> does not parse,
  and with the tag \<open>1.2.3\<close> the new-version file cannot be opened. Both end with the
  dev marker file reset to \<open>dev.1\<close>.
\<close>

theorem release_resets_dev_first_witness:
  "main plainYaml noFaults ''1.2'' True (devFileWith ''dev.7'') =
     (NewReleaseFailed ErrInvalidVersionFormat, devFileWith ''dev.1'')
   \<and> main plainYaml newFileLocked ''1.2.3'' True (devFileWith ''dev.7'') =
     (NewReleaseFailed ErrIO, devFileWith ''dev.1'')"
proof -
  have a: "\<not> relShape ''1.2''" by (simp add: run_parse)
  have b: "incrementRelease ''1.2.3'' = Inr ''1.3.0''" by (simp add: run_increment)
  have n1: "newRelease noFaults ''1.2'' (devFileWith ''dev.1'') =
              (Some ErrInvalidVersionFormat, devFileWith ''dev.1'')"
    by (rule newRelease_malformed [OF a])
  have n2: "newRelease newFileLocked ''1.2.3'' (devFileWith ''dev.1'') =
              (Some ErrIO, devFileWith ''dev.1'')"
    by (simp add: newRelease_def b saveRelease_open_fails newFileLocked_simps)
  have d: "(devFileWith ''dev.7'')(DevFullPathFilename \<mapsto> ''version: dev.1'' @ [CHR 0x0A]) =
             devFileWith ''dev.1''"
    by (simp add: devFileWith_def)
  show ?thesis
    using release_resets_dev_first [of "''1.2''" plainYaml "''version: dev.1'' @ [CHR 0x0A]"
        noFaults "devFileWith ''dev.7''"]
      release_resets_dev_first [of "''1.2.3''" plainYaml "''version: dev.1'' @ [CHR 0x0A]"
        newFileLocked "devFileWith ''dev.7''"]
    unfolding d
    by (simp add: noFaults_simps newFileLocked_simps plainYaml_Marshal DefaultTagVersion_def
        n1 n2)
qed

subsection \<open>Malformed tags\<close>




subsection \<open>Cutting a release candidate\<close>

text \<open>
  Claim C6, as amended. When \<open>getTag\<close> has read the version string \<open>v\<close> from the dev
  marker file, \<open>bumpDev\<close> returns \<open>ErrInvalidVersionFormat\<close> if and only if \<open>v\<close>
  does not split into exactly two fields at the dots, or its second field is not a
  decimal integer, or that integer is not a value of the 64-bit \<open>int\<close>; otherwise the
  parse step succeeds and \<open>bumpDev\<close> goes on to save the new version.
\<close>

theorem bumpDev_parse_error_iff:
  assumes "getTag y os fs = Inr v"
  shows "(fst (bumpDev y os fs) = Some ErrInvalidVersionFormat) =
           (\<not> (devShape v \<and> fitsInt (intVal (Split v CHR ''.'' ! 1))))
         \<and> (fst (bumpDev y os fs) = Some ErrInvalidVersionFormat
             \<or> (\<exists>nv. incrementDev v = Inr nv \<and> bumpDev y os fs = saveDev y os nv fs))"
proof -
  have a: "(fst (bumpDev y os fs) = Some ErrInvalidVersionFormat) =
           (\<not> (devShape v \<and> fitsInt (intVal (Split v CHR ''.'' ! 1))))"
    using bumpDev_parse_error [OF assms] by (simp add: incrementDev_error_iff)
  have b: "fst (bumpDev y os fs) = Some ErrInvalidVersionFormat
             \<or> (\<exists>nv. incrementDev v = Inr nv \<and> bumpDev y os fs = saveDev y os nv fs)"
    using incrementDev_total [of v] bumpDev_parse_error [OF assms] assms
    by (auto simp: bumpDev_def)
  from a b show ?thesis by (rule conjI)
qed

text \<open>
  A dev marker file with \<open>dev\<close> gives the parse error, one with \<open>dev.5\<close> does not.
\<close>

theorem bumpDev_parse_error_iff_witness:
  "fst (bumpDev plainYaml noFaults (devFileWith ''dev'')) = Some ErrInvalidVersionFormat
   \<and> \<not> devShape ''dev''
   \<and> fst (bumpDev plainYaml noFaults (devFileWith ''dev.5'')) \<noteq> Some ErrInvalidVersionFormat
   \<and> devShape ''dev.5''"
  using bumpDev_parse_error_iff [OF getTag_devFileWith [of "''dev''"]]
    bumpDev_parse_error_iff [OF getTag_devFileWith [of "''dev.5''"]]
  by (simp add: run_parse)

text \<open>
  Without the range the equivalence fails: \<open>dev.99999999999999999999\<close> splits into two
  fields, the second is an integer, and \<open>bumpDev\<close> returns
  \<open>ErrInvalidVersionFormat\<close>.
\<close>

theorem bumpDev_parse_error_iff_counterexample:
  "getTag plainYaml noFaults (devFileWith ''dev.99999999999999999999'') =
     Inr ''dev.99999999999999999999''
   \<and> devShape ''dev.99999999999999999999''
   \<and> fst (bumpDev plainYaml noFaults (devFileWith ''dev.99999999999999999999'')) =
       Some ErrInvalidVersionFormat"
proof -
  have "incrementDev ''dev.99999999999999999999'' = Inl ErrInvalidVersionFormat"
    by (simp add: run_increment)
  then show ?thesis
    by (simp add: getTag_devFileWith bumpDev_def run_parse)
qed




end
